theory Spec2Isabelle
  imports Complex_Main
begin

section \<open>Platform model\<close>

text \<open>
  The application is a TypeScript client of a hosted document store and identity
  provider.  The embedding keeps the repository's own logic and replaces the platform
  by a small explicit model:
  \<^item> JavaScript numbers are exact reals (rounding of IEEE doubles is not modelled);
  \<^item> document ids are natural numbers issued from a counter (\<open>addDoc\<close> picks a
    fresh id);
  \<^item> time stamps are strings handed in by the caller (\<open>serverTimestamp()\<close> and
    \<open>new Date().toISOString()\<close> are both the parameter \<open>ts\<close>);
  \<^item> a collection is the list of its documents in creation order, so
    \<open>orderBy('createdAt', 'asc')\<close> is the list order and \<open>'desc'\<close> its reverse;
  \<^item> every store call first consumes one entry of a fault schedule: \<open>True\<close> makes the
    call reject (network or permission failure), the empty schedule means that no call
    fails any more.  A rejected call leaves the documents as they are, and state is
    threaded through failures because a JavaScript exception rolls nothing back.
\<close>

datatype error = Error string | FirebaseError string string



text \<open>Values of fields the source gives no type (\<open>data()\<close> of an allowlist entry).\<close>

datatype jsval = JUndefined | JNull | JBool bool | JNum real | JStr string

record authorized_doc =
  ad_isActive :: jsval

record user_doc =
  ud_id :: string
  ud_email :: string
  ud_name :: string
  ud_uid :: string
  ud_createdAt :: string
  ud_lastLoginAt :: string
  ud_isActive :: bool

text \<open>
  \<open>FirestoreCategory\<close>: a stored category.  The flag fields are optional because
  \<open>convertToCategory\<close> provides for documents that lack them.
\<close>

record category_doc =
  cd_id :: nat
  cd_userId :: string
  cd_name :: string
  cd_color :: "string option"
  cd_icon :: "string option"
  cd_createdAt :: string
  cd_isDefault :: "bool option"
  cd_isActive :: "bool option"
  cd_expenseCount :: "nat option"

text \<open>\<open>FirestoreExpense\<close>: a stored expense.\<close>

record expense_doc =
  ed_id :: nat
  ed_userId :: string
  ed_amount :: real
  ed_description :: string
  ed_category :: string
  ed_date :: string
  ed_createdAt :: string
  ed_updatedAt :: string

record db =
  authorizedUsers :: "string \<rightharpoonup> authorized_doc"
  users :: "string \<rightharpoonup> user_doc"
  categories :: "category_doc list"
  expenses :: "expense_doc list"
  next_id :: nat
  faults :: "bool list"

definition unavailable :: error where
  "unavailable = FirebaseError ''unavailable'' ''The service is currently unavailable.''"

definition not_found :: error where
  "not_found = FirebaseError ''not-found'' ''No document to update''"

text \<open>One store call: does the fault schedule make it reject?\<close>

definition next_fault :: "db \<Rightarrow> bool \<times> db" where
  "next_fault s = (case faults s of
      [] \<Rightarrow> (False, s)
    | f # fs \<Rightarrow> (f, s\<lparr>faults := fs\<rparr>))"

section \<open>Session and identity gate (authService.ts)\<close>


text \<open>\<open>User\<close> of the application and the \<open>AuthResult\<close> of a sign-in.\<close>

record app_user =
  u_id :: string
  u_email :: string
  u_name :: string

record auth_result =
  success :: bool
  user :: "app_user option"
  error :: "string option"



text \<open>\<open>getDoc(doc(db, 'authorizedUsers', email))\<close>: \<open>None\<close> when no such document.\<close>

definition getDoc_authorizedUser :: "string \<Rightarrow> db \<Rightarrow> (error + authorized_doc option) \<times> db" where
  "getDoc_authorizedUser email s =
     (case next_fault s of
        (True, s') \<Rightarrow> (Inl unavailable, s')
      | (False, s') \<Rightarrow> (Inr (authorizedUsers s' email), s'))"

text \<open>
  \<open>isAuthorizedUser\<close>: \<open>exists() && data()?.isActive === true\<close>, and \<open>false\<close> from the
  catch block when the read rejects.
\<close>

definition isAuthorizedUser :: "string \<Rightarrow> db \<Rightarrow> bool \<times> db" where
  "isAuthorizedUser email s =
     (case getDoc_authorizedUser email s of
        (Inl e, s') \<Rightarrow> (False, s')
      | (Inr None, s') \<Rightarrow> (False, s')
      | (Inr (Some d), s') \<Rightarrow> (ad_isActive d = JBool True, s'))"








section \<open>Category store adapter (categoryService.ts)\<close>

text \<open>\<open>Category\<close>, as the application sees it.\<close>

record category =
  c_id :: nat
  c_userId :: string
  c_name :: string
  c_color :: "string option"
  c_icon :: "string option"
  c_createdAt :: string
  c_isDefault :: bool
  c_isActive :: bool
  c_expenseCount :: nat

text \<open>
  \<open>defaultCategories\<close>: name, colour and icon of the starter set.  The icons are
  emoji; they are given as their UTF-8 bytes.
\<close>

definition defaultCategories :: "(string \<times> string \<times> string) list" where
  "defaultCategories =
     [(''Food & Dining'', ''#FF6B6B'',
         [CHR 0xF0, CHR 0x9F, CHR 0x8D, CHR 0xBD, CHR 0xEF, CHR 0xB8, CHR 0x8F]),
      (''Transportation'', ''#4ECDC4'', [CHR 0xF0, CHR 0x9F, CHR 0x9A, CHR 0x97]),
      (''Shopping'', ''#45B7D1'',
         [CHR 0xF0, CHR 0x9F, CHR 0x9B, CHR 0x8D, CHR 0xEF, CHR 0xB8, CHR 0x8F]),
      (''Entertainment'', ''#96CEB4'', [CHR 0xF0, CHR 0x9F, CHR 0x8E, CHR 0xAC]),
      (''Bills & Utilities'', ''#FFEAA7'', [CHR 0xF0, CHR 0x9F, CHR 0x92, CHR 0xA1]),
      (''Healthcare'', ''#DDA0DD'', [CHR 0xF0, CHR 0x9F, CHR 0x8F, CHR 0xA5]),
      (''Education'', ''#98D8C8'', [CHR 0xF0, CHR 0x9F, CHR 0x93, CHR 0x9A]),
      (''Travel'', ''#F7DC6F'', [CHR 0xE2, CHR 0x9C, CHR 0x88, CHR 0xEF, CHR 0xB8, CHR 0x8F])]"

text \<open>
  \<open>convertToCategory\<close>: \<open>isDefault: data.isDefault || false\<close>,
  \<open>isActive: data.isActive !== false\<close>, \<open>expenseCount: data.expenseCount || 0\<close>.
  A missing field is \<open>undefined\<close>, which is falsy and is not \<open>false\<close>.
\<close>

definition convertToCategory :: "category_doc \<Rightarrow> category" where
  "convertToCategory d =
     \<lparr>c_id = cd_id d, c_userId = cd_userId d, c_name = cd_name d,
      c_color = cd_color d, c_icon = cd_icon d, c_createdAt = cd_createdAt d,
      c_isDefault = (case cd_isDefault d of None \<Rightarrow> False | Some b \<Rightarrow> if b then b else False),
      c_isActive = (cd_isActive d \<noteq> Some False),
      c_expenseCount = (case cd_expenseCount d of None \<Rightarrow> 0 | Some n \<Rightarrow> if n \<noteq> 0 then n else 0)\<rparr>"

text \<open>\<open>addDoc(collection(db, 'categories'), data)\<close>: a new document under a fresh id.\<close>

definition addDoc_category :: "category_doc \<Rightarrow> db \<Rightarrow> (error + nat) \<times> db" where
  "addDoc_category d s =
     (case next_fault s of
        (True, s') \<Rightarrow> (Inl unavailable, s')
      | (False, s') \<Rightarrow>
          (Inr (next_id s'),
           s'\<lparr>categories := categories s' @ [d\<lparr>cd_id := next_id s'\<rparr>],
              next_id := Suc (next_id s')\<rparr>))"

text \<open>
  \<open>updateDoc(doc(db, 'categories', id), fields)\<close>: rejects with \<open>not-found\<close> when the
  document does not exist.
\<close>

definition updateDoc_category :: "nat \<Rightarrow> (category_doc \<Rightarrow> category_doc) \<Rightarrow> db \<Rightarrow> (error + unit) \<times> db" where
  "updateDoc_category i f s =
     (case next_fault s of
        (True, s') \<Rightarrow> (Inl unavailable, s')
      | (False, s') \<Rightarrow>
          if i \<in> cd_id ` set (categories s')
          then (Inr (), s'\<lparr>categories := map (\<lambda>d. if cd_id d = i then f d else d) (categories s')\<rparr>)
          else (Inl not_found, s'))"

text \<open>The loop of \<open>createDefaultCategories\<close>: one \<open>addDoc\<close> and one \<open>push\<close> per default.\<close>

fun createDefaults_loop ::
  "string \<Rightarrow> string \<Rightarrow> (string \<times> string \<times> string) list \<Rightarrow> category list \<Rightarrow> db
     \<Rightarrow> (error + category list) \<times> db" where
  "createDefaults_loop userId ts [] cats s = (Inr cats, s)"
| "createDefaults_loop userId ts ((nm, col, ic) # rest) cats s =
     (case addDoc_category
             \<lparr>cd_id = 0, cd_userId = userId, cd_name = nm, cd_color = Some col,
              cd_icon = Some ic, cd_createdAt = ts, cd_isDefault = Some True,
              cd_isActive = Some True, cd_expenseCount = Some 0\<rparr> s of
        (Inl e, s') \<Rightarrow> (Inl e, s')
      | (Inr i, s') \<Rightarrow>
          createDefaults_loop userId ts rest
            (cats @ [\<lparr>c_id = i, c_userId = userId, c_name = nm, c_color = Some col,
                      c_icon = Some ic, c_createdAt = ts, c_isDefault = True,
                      c_isActive = True, c_expenseCount = 0\<rparr>]) s')"

definition createDefaultCategories :: "string \<Rightarrow> string \<Rightarrow> db \<Rightarrow> (error + category list) \<times> db" where
  "createDefaultCategories userId ts s =
     (case createDefaults_loop userId ts defaultCategories [] s of
        (Inl e, s') \<Rightarrow> (Inl (Error ''Failed to create default categories''), s')
      | (Inr cats, s') \<Rightarrow> (Inr cats, s'))"

text \<open>\<open>deleteCategory\<close>: the soft delete, \<open>updateDoc(docRef, {isActive: false})\<close>.\<close>

definition deleteCategory :: "nat \<Rightarrow> db \<Rightarrow> (error + unit) \<times> db" where
  "deleteCategory categoryId s =
     (case updateDoc_category categoryId (\<lambda>d. d\<lparr>cd_isActive := Some False\<rparr>) s of
        (Inl e, s') \<Rightarrow> (Inl (Error ''Failed to delete category''), s')
      | (Inr u, s') \<Rightarrow> (Inr (), s'))"

text \<open>\<open>getCategory\<close>: the point lookup; \<open>None\<close> is the source's \<open>null\<close>.\<close>

definition getCategory :: "nat \<Rightarrow> db \<Rightarrow> (error + category option) \<times> db" where
  "getCategory categoryId s =
     (case next_fault s of
        (True, s') \<Rightarrow> (Inl (Error ''Failed to get category''), s')
      | (False, s') \<Rightarrow>
          (case find (\<lambda>d. cd_id d = categoryId) (categories s') of
             Some d \<Rightarrow> (Inr (Some (convertToCategory d)), s')
           | None \<Rightarrow> (Inr None, s')))"

text \<open>
  The query of \<open>getUserCategories\<close> and \<open>subscribeToUserCategories\<close>:
  \<open>where('userId', '==', userId)\<close>, and \<open>where('isActive', '==', true)\<close> unless inactive
  ones are asked for; an equality filter matches only documents that have the field.
\<close>

definition query_userCategories :: "string \<Rightarrow> bool \<Rightarrow> db \<Rightarrow> category_doc list" where
  "query_userCategories userId includeInactive s =
     filter (\<lambda>d. cd_userId d = userId \<and> (includeInactive \<or> cd_isActive d = Some True))
       (categories s)"

definition getUserCategories :: "string \<Rightarrow> bool \<Rightarrow> db \<Rightarrow> (error + category list) \<times> db" where
  "getUserCategories userId includeInactive s =
     (case next_fault s of
        (True, s') \<Rightarrow> (Inl (Error ''Failed to get categories''), s')
      | (False, s') \<Rightarrow>
          (Inr (map convertToCategory (query_userCategories userId includeInactive s')), s'))"

text \<open>
  \<open>subscribeToUserCategories\<close>: what the listener hands to the callback for the current
  content of the store.
\<close>

definition subscribeToUserCategories :: "string \<Rightarrow> db \<Rightarrow> category list" where
  "subscribeToUserCategories userId s =
     map convertToCategory (query_userCategories userId False s)"

text \<open>
  \<open>ensureUserHasCategories\<close>, in the two parts its first \<open>await\<close> separates: the read of
  the existing categories, and what follows it.
\<close>

definition ensure_after_read ::
  "string \<Rightarrow> string \<Rightarrow> error + category list \<Rightarrow> db \<Rightarrow> (error + category list) \<times> db" where
  "ensure_after_read userId ts r s =
     (case r of
        Inl e \<Rightarrow> (Inl (Error ''Failed to ensure user has categories''), s)
      | Inr existingCategories \<Rightarrow>
          if length existingCategories = 0
          then (case createDefaultCategories userId ts s of
                  (Inl e, s') \<Rightarrow> (Inl (Error ''Failed to ensure user has categories''), s')
                | (Inr cats, s') \<Rightarrow> (Inr cats, s'))
          else (Inr existingCategories, s))"

definition ensureUserHasCategories :: "string \<Rightarrow> string \<Rightarrow> db \<Rightarrow> (error + category list) \<times> db" where
  "ensureUserHasCategories userId ts s =
     (case getUserCategories userId False s of
        (r, s') \<Rightarrow> ensure_after_read userId ts r s')"

section \<open>Expense store adapter (expenseService.ts)\<close>

text \<open>\<open>Expense\<close>, as the application sees it.\<close>

record expense =
  e_id :: nat
  e_amount :: real
  e_description :: string
  e_category :: string
  e_date :: string
  e_createdAt :: string

definition convertToExpense :: "expense_doc \<Rightarrow> expense" where
  "convertToExpense d =
     \<lparr>e_id = ed_id d, e_amount = ed_amount d, e_description = ed_description d,
      e_category = ed_category d, e_date = ed_date d, e_createdAt = ed_createdAt d\<rparr>"

text \<open>
  The fields an update carries.  \<open>createdAt\<close> is among them because the callers spread a
  whole \<open>Expense\<close> into the update.  The spread also carries \<open>id\<close>; it is stored as
  a plain field that nothing reads back (the conversion takes the document's own id) and
  is left out.
\<close>

record expense_patch =
  p_amount :: "real option"
  p_description :: "string option"
  p_category :: "string option"
  p_date :: "string option"
  p_createdAt :: "string option"

definition apply_patch :: "expense_patch \<Rightarrow> string \<Rightarrow> expense_doc \<Rightarrow> expense_doc" where
  "apply_patch p ts d =
     d\<lparr>ed_amount := (case p_amount p of None \<Rightarrow> ed_amount d | Some a \<Rightarrow> a),
       ed_description := (case p_description p of None \<Rightarrow> ed_description d | Some x \<Rightarrow> x),
       ed_category := (case p_category p of None \<Rightarrow> ed_category d | Some x \<Rightarrow> x),
       ed_date := (case p_date p of None \<Rightarrow> ed_date d | Some x \<Rightarrow> x),
       ed_createdAt := (case p_createdAt p of None \<Rightarrow> ed_createdAt d | Some x \<Rightarrow> x),
       ed_updatedAt := ts\<rparr>"

text \<open>\<open>updateExpense\<close>: \<open>updateDoc(docRef, {...expenseData, updatedAt: serverTimestamp()})\<close>.\<close>

definition updateExpense :: "string \<Rightarrow> nat \<Rightarrow> expense_patch \<Rightarrow> db \<Rightarrow> (error + unit) \<times> db" where
  "updateExpense ts expenseId expenseData s =
     (case next_fault s of
        (True, s') \<Rightarrow> (Inl (Error ''Failed to update expense''), s')
      | (False, s') \<Rightarrow>
          if expenseId \<in> ed_id ` set (expenses s')
          then (Inr (),
                s'\<lparr>expenses :=
                     map (\<lambda>d. if ed_id d = expenseId then apply_patch expenseData ts d else d)
                       (expenses s')\<rparr>)
          else (Inl (Error ''Failed to update expense''), s'))"

text \<open>\<open>deleteExpense\<close>: \<open>deleteDoc\<close> succeeds whether or not the document exists.\<close>

definition deleteExpense :: "nat \<Rightarrow> db \<Rightarrow> (error + unit) \<times> db" where
  "deleteExpense expenseId s =
     (case next_fault s of
        (True, s') \<Rightarrow> (Inl (Error ''Failed to delete expense''), s')
      | (False, s') \<Rightarrow>
          (Inr (), s'\<lparr>expenses := filter (\<lambda>d. ed_id d \<noteq> expenseId) (expenses s')\<rparr>))"

text \<open>
  The query of \<open>getUserExpenses\<close> and \<open>subscribeToUserExpenses\<close>: the user's expenses,
  newest first.
\<close>

definition query_userExpenses :: "string \<Rightarrow> db \<Rightarrow> expense_doc list" where
  "query_userExpenses userId s = rev (filter (\<lambda>d. ed_userId d = userId) (expenses s))"

definition getUserExpenses :: "string \<Rightarrow> db \<Rightarrow> (error + expense list) \<times> db" where
  "getUserExpenses userId s =
     (case next_fault s of
        (True, s') \<Rightarrow> (Inl (Error ''Failed to get expenses''), s')
      | (False, s') \<Rightarrow> (Inr (map convertToExpense (query_userExpenses userId s')), s'))"

definition subscribeToUserExpenses :: "string \<Rightarrow> db \<Rightarrow> expense list" where
  "subscribeToUserExpenses userId s = map convertToExpense (query_userExpenses userId s)"

text \<open>
  Division of JavaScript numbers never raises: a zero divisor gives \<open>NaN\<close> or an
  infinity.  \<open>None\<close> stands for those results, which are not numbers of the model.
\<close>

definition divide_number :: "real \<Rightarrow> real \<Rightarrow> real option" where
  "divide_number a b = (if b = 0 then None else Some (a / b))"

record expense_stats =
  totalExpenses :: nat
  totalAmount :: real
  averageAmount :: "real option"
  expenseCount :: nat

text \<open>
  \<open>getExpenseStats\<close>: \<open>reduce\<close> is a left fold; the average divides only when the count
  is positive.
\<close>

definition getExpenseStats :: "string \<Rightarrow> db \<Rightarrow> (error + expense_stats) \<times> db" where
  "getExpenseStats userId s =
     (case getUserExpenses userId s of
        (Inl e, s') \<Rightarrow> (Inl (Error ''Failed to get expense statistics''), s')
      | (Inr exps, s') \<Rightarrow>
          (let total = foldl (\<lambda>sum e. sum + e_amount e) 0 exps;
               n = length exps;
               average = (if n > 0 then divide_number total (real n) else Some 0)
           in (Inr \<lparr>totalExpenses = n, totalAmount = total, averageAmount = average,
                     expenseCount = n\<rparr>, s')))"

section \<open>Aggregation (Dashboard.tsx, pdfGenerator.ts)\<close>

text \<open>
  The accumulator \<open>{} as Record<string, number>\<close> is a dictionary from category name to
  amount; it is kept as an association list in insertion order, which is the order
  \<open>Object.values\<close> and \<open>Object.entries\<close> walk it in.  \<open>obj_set\<close> is the assignment
  \<open>acc[k] = v\<close>: an existing key keeps its place, a new one goes to the end.
\<close>

fun obj_set :: "(string \<times> real) list \<Rightarrow> string \<Rightarrow> real \<Rightarrow> (string \<times> real) list" where
  "obj_set [] k v = [(k, v)]"
| "obj_set ((k', v') # kvs) k v =
     (if k' = k then (k, v) # kvs else (k', v') # obj_set kvs k v)"

text \<open>\<open>acc[k] || 0\<close>: a missing key is \<open>undefined\<close>, and so falsy, as is the number 0.\<close>

definition get_or_zero :: "(string \<times> real) list \<Rightarrow> string \<Rightarrow> real" where
  "get_or_zero acc k = (case map_of acc k of None \<Rightarrow> 0 | Some v \<Rightarrow> if v \<noteq> 0 then v else 0)"


text \<open>\<open>getCategoryTotals\<close> of the report generator: the same fold.\<close>

definition getCategoryTotals :: "expense list \<Rightarrow> (string \<times> real) list" where
  "getCategoryTotals exps =
     foldl (\<lambda>acc e. obj_set acc (e_category e) (get_or_zero acc (e_category e) + e_amount e))
       [] exps"

section \<open>CSV export (exportUtils.ts, storage.ts)\<close>

text \<open>\<open>Array.prototype.join\<close> on strings.\<close>

fun join :: "string \<Rightarrow> string list \<Rightarrow> string" where
  "join sep [] = []"
| "join sep [x] = x"
| "join sep (x # y # ys) = x @ sep @ join sep (y # ys)"

definition dquote :: char where
  "dquote = CHR 0x22"

definition newline :: char where
  "newline = CHR 0x0A"

definition headers :: "string list" where
  "headers = [''Date'', ''Description'', ''Category'', ''Amount'', ''Created At'']"

text \<open>
  The text \<open>exportToCSV\<close> puts into the downloaded file (both copies of the function are
  the same).  \<open>numToString\<close> is JavaScript's conversion of a number to a string, which
  \<open>join\<close> applies to the amount.
\<close>

definition csvRow :: "(real \<Rightarrow> string) \<Rightarrow> expense \<Rightarrow> string" where
  "csvRow numToString e =
     join '','' [e_date e, [dquote] @ e_description e @ [dquote], e_category e,
                 numToString (e_amount e), e_createdAt e]"

definition exportToCSV :: "(real \<Rightarrow> string) \<Rightarrow> expense list \<Rightarrow> string" where
  "exportToCSV numToString exps =
     join [newline] (join '','' headers # map (csvRow numToString) exps)"

text \<open>What a round trip has to give back for one expense.\<close>

definition csvTuple :: "expense \<Rightarrow> string \<times> string \<times> string \<times> real" where
  "csvTuple e = (e_date e, e_description e, e_category e, e_amount e)"

section \<open>Category reconciliation (CategoryManagement component)\<close>

text \<open>The component's state; its props are the expense list and the signed-in user.\<close>

record cm_state =
  cm_categories :: "category list"
  newCategoryName :: string
  editingCategory :: "string option"
  editCategoryName :: string
  showDeleteConfirm :: "string option"
  replacementCategory :: string

definition getCategoryUsageCount :: "expense list \<Rightarrow> string \<Rightarrow> nat" where
  "getCategoryUsageCount exps categoryName =
     length (filter (\<lambda>e. e_category e = categoryName) exps)"

text \<open>
  \<open>handleDeleteCategory\<close>: a category in use opens the confirmation dialog; one that is
  not in use is soft-deleted at once and the list reloaded.  The catch block only logs.
\<close>

definition handleDeleteCategory ::
  "app_user option \<Rightarrow> expense list \<Rightarrow> string \<Rightarrow> cm_state \<times> db \<Rightarrow> cm_state \<times> db" where
  "handleDeleteCategory cu exps categoryToDelete st =
     (case st of (ui, s) \<Rightarrow>
       (case cu of
          None \<Rightarrow> (ui, s)
        | Some u \<Rightarrow>
            (let usageCount = getCategoryUsageCount exps categoryToDelete in
             case find (\<lambda>cat. c_name cat = categoryToDelete) (cm_categories ui) of
               None \<Rightarrow> (ui, s)
             | Some categoryToDeleteObj \<Rightarrow>
                 if usageCount > 0 then (ui\<lparr>showDeleteConfirm := Some categoryToDelete\<rparr>, s)
                 else
                   (case deleteCategory (c_id categoryToDeleteObj) s of
                      (Inl e, s1) \<Rightarrow> (ui, s1)
                    | (Inr x, s1) \<Rightarrow>
                        (case getUserCategories (u_id u) False s1 of
                           (Inl e, s2) \<Rightarrow> (ui, s2)
                         | (Inr userCategories, s2) \<Rightarrow>
                             (ui\<lparr>cm_categories := userCategories\<rparr>, s2))))))"

text \<open>\<open>{...expense, category: replacementCategory}\<close>.\<close>

definition spread_with_category :: "expense \<Rightarrow> string \<Rightarrow> expense_patch" where
  "spread_with_category e r =
     \<lparr>p_amount = Some (e_amount e), p_description = Some (e_description e),
      p_category = Some r, p_date = Some (e_date e), p_createdAt = Some (e_createdAt e)\<rparr>"

text \<open>The two loops of \<open>confirmDeleteCategory\<close>; the first rejected call ends the loop.\<close>

fun replace_loop :: "string \<Rightarrow> string \<Rightarrow> expense list \<Rightarrow> db \<Rightarrow> (error + unit) \<times> db" where
  "replace_loop ts r [] s = (Inr (), s)"
| "replace_loop ts r (e # es) s =
     (case updateExpense ts (e_id e) (spread_with_category e r) s of
        (Inl x, s') \<Rightarrow> (Inl x, s')
      | (Inr u, s') \<Rightarrow> replace_loop ts r es s')"

fun delete_loop :: "expense list \<Rightarrow> db \<Rightarrow> (error + unit) \<times> db" where
  "delete_loop [] s = (Inr (), s)"
| "delete_loop (e # es) s =
     (case deleteExpense (e_id e) s of
        (Inl x, s') \<Rightarrow> (Inl x, s')
      | (Inr u, s') \<Rightarrow> delete_loop es s')"

text \<open>
  \<open>confirmDeleteCategory\<close>: nothing happens without a pending confirmation (\<open>null\<close> or the
  empty string) or without a user.  Otherwise the referencing expenses are rewritten to
  the replacement, or deleted when the replacement is empty; then the category is
  soft-deleted, the list reloaded and the dialog closed.  The catch block only logs, so
  a failure leaves the dialog as it is and the store as far as the calls got.
\<close>

definition confirmDeleteCategory ::
  "string \<Rightarrow> app_user option \<Rightarrow> expense list \<Rightarrow> cm_state \<times> db \<Rightarrow> cm_state \<times> db" where
  "confirmDeleteCategory ts cu exps st =
     (case st of (ui, s) \<Rightarrow>
       (case (showDeleteConfirm ui, cu) of
          (Some categoryToDelete, Some u) \<Rightarrow>
            if categoryToDelete = [] then (ui, s)
            else
              (case find (\<lambda>cat. c_name cat = categoryToDelete) (cm_categories ui) of
                 None \<Rightarrow> (ui, s)
               | Some categoryToDeleteObj \<Rightarrow>
                   (let expensesToUpdate = filter (\<lambda>e. e_category e = categoryToDelete) exps in
                    case (if replacementCategory ui \<noteq> []
                          then replace_loop ts (replacementCategory ui) expensesToUpdate s
                          else delete_loop expensesToUpdate s) of
                      (Inl e, s1) \<Rightarrow> (ui, s1)
                    | (Inr x, s1) \<Rightarrow>
                        (case deleteCategory (c_id categoryToDeleteObj) s1 of
                           (Inl e, s2) \<Rightarrow> (ui, s2)
                         | (Inr y, s2) \<Rightarrow>
                             (case getUserCategories (u_id u) False s2 of
                                (Inl e, s3) \<Rightarrow> (ui, s3)
                              | (Inr userCategories, s3) \<Rightarrow>
                                  (ui\<lparr>cm_categories := userCategories,
                                      showDeleteConfirm := None,
                                      replacementCategory := []\<rparr>, s3)))))
        | (None, u) \<Rightarrow> (ui, s)
        | (Some categoryToDelete, None) \<Rightarrow> (ui, s)))"

section \<open>Notions used in the statements\<close>

text \<open>A store with no documents and an empty fault schedule.\<close>

definition empty_db :: db where
  "empty_db = \<lparr>authorizedUsers = Map.empty, users = Map.empty, categories = [],
               expenses = [], next_id = 0, faults = []\<rparr>"

text \<open>All category documents of a user, active or not.\<close>

definition user_category_docs :: "string \<Rightarrow> db \<Rightarrow> category_doc list" where
  "user_category_docs userId s = filter (\<lambda>d. cd_userId d = userId) (categories s)"

text \<open>
  The flag defaults a converted category has to show with respect to the stored document:
  active unless stored as \<open>false\<close>, default only if stored as \<open>true\<close>, count 0 when
  missing.
\<close>

definition flag_defaults :: "category_doc \<Rightarrow> category \<Rightarrow> bool" where
  "flag_defaults d c =
     (c_isActive c = (cd_isActive d \<noteq> Some False)
      \<and> c_isDefault c = (cd_isDefault d = Some True)
      \<and> c_expenseCount c = (case cd_expenseCount d of None \<Rightarrow> 0 | Some n \<Rightarrow> n))"

text \<open>
  The document \<open>createDefaultCategories\<close> stores for one entry of the default list under
  the id \<open>i\<close>, and the category it returns for it.
\<close>

definition default_doc :: "string \<Rightarrow> string \<Rightarrow> nat \<Rightarrow> string \<times> string \<times> string \<Rightarrow> category_doc" where
  "default_doc userId ts i dc =
     (case dc of (nm, col, ic) \<Rightarrow>
        \<lparr>cd_id = i, cd_userId = userId, cd_name = nm, cd_color = Some col,
         cd_icon = Some ic, cd_createdAt = ts, cd_isDefault = Some True,
         cd_isActive = Some True, cd_expenseCount = Some 0\<rparr>)"

definition default_cat :: "string \<Rightarrow> string \<Rightarrow> nat \<Rightarrow> string \<times> string \<times> string \<Rightarrow> category" where
  "default_cat userId ts i dc =
     (case dc of (nm, col, ic) \<Rightarrow>
        \<lparr>c_id = i, c_userId = userId, c_name = nm, c_color = Some col,
         c_icon = Some ic, c_createdAt = ts, c_isDefault = True,
         c_isActive = True, c_expenseCount = 0\<rparr>)"

text \<open>What the reconciliation does to one stored expense and to one expense of the list.\<close>

definition recategorize :: "string \<Rightarrow> string \<Rightarrow> expense_doc \<Rightarrow> expense_doc" where
  "recategorize ts r d = d\<lparr>ed_category := r, ed_updatedAt := ts\<rparr>"

definition reassign :: "string \<Rightarrow> string \<Rightarrow> expense \<Rightarrow> expense" where
  "reassign c r e = (if e_category e = c then e\<lparr>e_category := r\<rparr> else e)"

text \<open>
  A small store for the examples: one user with the categories Food, Fun and Pets, one
  expense under Food and one under Fun, and the component showing that user's list.
\<close>

definition demo_user :: app_user where
  "demo_user = \<lparr>u_id = ''u1'', u_email = ''ann@example.com'', u_name = ''ann''\<rparr>"

definition demo_db :: db where
  "demo_db = empty_db
     \<lparr>categories :=
        [\<lparr>cd_id = 1, cd_userId = ''u1'', cd_name = ''Food'', cd_color = None, cd_icon = None,
          cd_createdAt = ''t0'', cd_isDefault = Some False, cd_isActive = Some True,
          cd_expenseCount = Some 0\<rparr>,
         \<lparr>cd_id = 2, cd_userId = ''u1'', cd_name = ''Fun'', cd_color = None, cd_icon = None,
          cd_createdAt = ''t0'', cd_isDefault = Some False, cd_isActive = Some True,
          cd_expenseCount = Some 0\<rparr>,
         \<lparr>cd_id = 3, cd_userId = ''u1'', cd_name = ''Pets'', cd_color = None, cd_icon = None,
          cd_createdAt = ''t0'', cd_isDefault = Some False, cd_isActive = Some True,
          cd_expenseCount = Some 0\<rparr>],
      expenses :=
        [\<lparr>ed_id = 10, ed_userId = ''u1'', ed_amount = 45.5, ed_description = ''Groceries'',
          ed_category = ''Food'', ed_date = ''2025-01-15'', ed_createdAt = ''t0'',
          ed_updatedAt = ''t0''\<rparr>,
         \<lparr>ed_id = 11, ed_userId = ''u1'', ed_amount = 20, ed_description = ''Cinema'',
          ed_category = ''Fun'', ed_date = ''2025-01-16'', ed_createdAt = ''t0'',
          ed_updatedAt = ''t0''\<rparr>],
      next_id := 12\<rparr>"

definition demo_ui :: cm_state where
  "demo_ui =
     \<lparr>cm_categories = subscribeToUserCategories ''u1'' demo_db, newCategoryName = [],
      editingCategory = None, editCategoryName = [], showDeleteConfirm = None,
      replacementCategory = []\<rparr>"

text \<open>
  A reader for the exported text, to state the round trip: lines are split at the newline
  character and the header line is dropped; in a line, a comma outside double quotes ends
  a field and the double quotes themselves are dropped; a line of five fields gives the
  tuple of date, description, category and amount (\<open>numOfString\<close> reads the amount back).
\<close>

fun split_on :: "char \<Rightarrow> string \<Rightarrow> string list" where
  "split_on c [] = [[]]"
| "split_on c (x # xs) =
     (if x = c then [] # split_on c xs
      else (case split_on c xs of [] \<Rightarrow> [[x]] | p # ps \<Rightarrow> (x # p) # ps))"

fun csv_fields :: "bool \<Rightarrow> string \<Rightarrow> string \<Rightarrow> string list" where
  "csv_fields quoted cur [] = [cur]"
| "csv_fields quoted cur (x # xs) =
     (if x = dquote then csv_fields (\<not> quoted) cur xs
      else if x = CHR '','' \<and> \<not> quoted then cur # csv_fields False [] xs
      else csv_fields quoted (cur @ [x]) xs)"

definition parse_row :: "(string \<Rightarrow> real) \<Rightarrow> string \<Rightarrow> (string \<times> string \<times> string \<times> real) option" where
  "parse_row numOfString line =
     (case csv_fields False [] line of
        [d, s, c, a, t] \<Rightarrow> Some (d, s, c, numOfString a)
      | _ \<Rightarrow> None)"

definition parseCSV :: "(string \<Rightarrow> real) \<Rightarrow> string \<Rightarrow> (string \<times> string \<times> string \<times> real) option list" where
  "parseCSV numOfString txt = map (parse_row numOfString) (tl (split_on newline txt))"

text \<open>
  Fields the reader gets back unchanged: no double quote, comma or newline in the date,
  the category, the printed amount and the creation time; no double quote or newline in
  the description (which may hold commas, as it is written between double quotes).
\<close>

definition plain :: "string \<Rightarrow> bool" where
  "plain x = (dquote \<notin> set x \<and> CHR '','' \<notin> set x \<and> newline \<notin> set x)"

definition csv_safe :: "(real \<Rightarrow> string) \<Rightarrow> expense \<Rightarrow> bool" where
  "csv_safe numToString e =
     (plain (e_date e) \<and> plain (e_category e) \<and> plain (numToString (e_amount e))
      \<and> plain (e_createdAt e)
      \<and> dquote \<notin> set (e_description e) \<and> newline \<notin> set (e_description e))"

text \<open>
  Two expenses that differ in description and category: in the first the description
  holds a double quote and a comma, in the second the category does.
\<close>

definition csv_a :: expense where
  "csv_a = \<lparr>e_id = 1, e_amount = 3, e_description = ''Coffee'' @ [dquote] @ '',Cafe'',
            e_category = ''Food'', e_date = ''2025-01-15'',
            e_createdAt = ''2025-01-15T10:30:00Z''\<rparr>"

definition csv_b :: expense where
  "csv_b = \<lparr>e_id = 1, e_amount = 3, e_description = ''Coffee'',
            e_category = ''Cafe'' @ [dquote] @ '',Food'', e_date = ''2025-01-15'',
            e_createdAt = ''2025-01-15T10:30:00Z''\<rparr>"

text \<open>A way of printing and reading back the amounts of the examples.\<close>

definition demo_numToString :: "real \<Rightarrow> string" where
  "demo_numToString x = (if x = 45.5 then ''45.5'' else if x = 120 then ''120'' else ''0'')"

definition demo_numOfString :: "string \<Rightarrow> real" where
  "demo_numOfString x = (if x = ''45.5'' then 45.5 else if x = ''120'' then 120 else 0)"

definition demo_expenses :: "expense list" where
  "demo_expenses =
     [\<lparr>e_id = 1, e_amount = 45.5, e_description = ''Milk, eggs'', e_category = ''Food & Dining'',
       e_date = ''2025-01-15'', e_createdAt = ''2025-01-15T10:30:00Z''\<rparr>,
      \<lparr>e_id = 2, e_amount = 120, e_description = ''Gas station'', e_category = ''Transportation'',
       e_date = ''2025-01-14'', e_createdAt = ''2025-01-14T15:45:00Z''\<rparr>]"

section \<open>Properties of the session and identity gate\<close>

lemma next_fault_nil: "faults s = [] \<Longrightarrow> next_fault s = (False, s)"
  by (simp add: next_fault_def)

lemma categories_next_fault: "categories (snd (next_fault s)) = categories s"
  by (simp add: next_fault_def split: list.splits)

lemma expenses_next_fault: "expenses (snd (next_fault s)) = expenses s"
  by (simp add: next_fault_def split: list.splits)

text \<open>
  Claim C8.  The allowlist check is total and fails closed.  It answers \<open>True\<close> exactly
  when the read of the entry for the email succeeds, the entry exists and its
  \<open>isActive\<close> field is the boolean \<open>true\<close>; whenever the read is rejected it answers
  \<open>False\<close> instead of passing the error on.  It changes no document.
\<close>

theorem isAuthorizedUser_fail_closed:
  "(fst (isAuthorizedUser email s) \<longleftrightarrow>
      (\<exists>d. fst (getDoc_authorizedUser email s) = Inr (Some d) \<and> ad_isActive d = JBool True))
   \<and> (\<forall>d. fst (getDoc_authorizedUser email s) = Inr (Some d) \<longrightarrow>
          authorizedUsers s email = Some d)
   \<and> (\<forall>e. fst (getDoc_authorizedUser email s) = Inl e \<longrightarrow>
          fst (isAuthorizedUser email s) = False)
   \<and> authorizedUsers (snd (isAuthorizedUser email s)) = authorizedUsers s"
  by (auto simp: isAuthorizedUser_def getDoc_authorizedUser_def next_fault_def
      split: prod.splits sum.splits option.splits list.splits bool.splits)

theorem isAuthorizedUser_fail_closed_witness:
  "fst (isAuthorizedUser ''ann@example.com''
     (empty_db\<lparr>authorizedUsers := [''ann@example.com'' \<mapsto> \<lparr>ad_isActive = JBool True\<rparr>]\<rparr>))
   \<and> fst (getDoc_authorizedUser ''ann@example.com''
     (empty_db\<lparr>authorizedUsers := [''ann@example.com'' \<mapsto> \<lparr>ad_isActive = JBool True\<rparr>],
               faults := [True]\<rparr>)) = Inl unavailable
   \<and> \<not> fst (isAuthorizedUser ''ann@example.com''
     (empty_db\<lparr>authorizedUsers := [''ann@example.com'' \<mapsto> \<lparr>ad_isActive = JBool True\<rparr>],
               faults := [True]\<rparr>))
   \<and> \<not> fst (isAuthorizedUser ''ann@example.com''
     (empty_db\<lparr>authorizedUsers := [''ann@example.com'' \<mapsto> \<lparr>ad_isActive = JStr ''true''\<rparr>]\<rparr>))"
  using isAuthorizedUser_fail_closed [of "''ann@example.com''"
      "empty_db\<lparr>authorizedUsers := [''ann@example.com'' \<mapsto> \<lparr>ad_isActive = JBool True\<rparr>]\<rparr>"]
    isAuthorizedUser_fail_closed [of "''ann@example.com''"
      "empty_db\<lparr>authorizedUsers := [''ann@example.com'' \<mapsto> \<lparr>ad_isActive = JBool True\<rparr>],
                faults := [True]\<rparr>"]
    isAuthorizedUser_fail_closed [of "''ann@example.com''"
      "empty_db\<lparr>authorizedUsers := [''ann@example.com'' \<mapsto> \<lparr>ad_isActive = JStr ''true''\<rparr>]\<rparr>"]
  by (simp add: getDoc_authorizedUser_def next_fault_def empty_db_def)



section \<open>Properties of the category store adapter\<close>

lemma convertToCategory_flags: "flag_defaults d (convertToCategory d)"
  by (simp add: flag_defaults_def convertToCategory_def split: option.splits)

lemma find_in_set: "find P xs = Some x \<Longrightarrow> x \<in> set xs"
  by (induction xs) (auto split: if_splits)

text \<open>
  Claim C10.  Every category returned by a read operation (the point lookup
  \<open>getCategory\<close>, the list \<open>getUserCategories\<close>, the live subscription) is the conversion
  of a stored document and has its three flag fields set by the defaults: active unless
  the stored \<open>isActive\<close> is \<open>false\<close>, default only if the stored \<open>isDefault\<close> is \<open>true\<close>,
  and expense count 0 when the stored count is missing.
\<close>

theorem category_reads_flag_defaults:
  "(\<forall>c. fst (getCategory i s) = Inr (Some c) \<longrightarrow>
        (\<exists>d \<in> set (categories s). c = convertToCategory d \<and> flag_defaults d c))
   \<and> (\<forall>cs. fst (getUserCategories u inc s) = Inr cs \<longrightarrow>
        (\<forall>c \<in> set cs. \<exists>d \<in> set (categories s). c = convertToCategory d \<and> flag_defaults d c))
   \<and> (\<forall>c \<in> set (subscribeToUserCategories u s).
        \<exists>d \<in> set (categories s). c = convertToCategory d \<and> flag_defaults d c)"
proof (intro conjI allI impI ballI)
  fix c assume "fst (getCategory i s) = Inr (Some c)"
  then obtain d where "find (\<lambda>d. cd_id d = i) (categories (snd (next_fault s))) = Some d"
      and "c = convertToCategory d"
    by (auto simp: getCategory_def split: prod.splits bool.splits option.splits)
  then show "\<exists>d \<in> set (categories s). c = convertToCategory d \<and> flag_defaults d c"
    using find_in_set convertToCategory_flags categories_next_fault by metis
next
  fix cs c assume "fst (getUserCategories u inc s) = Inr cs" and "c \<in> set cs"
  then have "c \<in> convertToCategory ` set (query_userCategories u inc (snd (next_fault s)))"
    by (auto simp: getUserCategories_def split: prod.splits bool.splits)
  then show "\<exists>d \<in> set (categories s). c = convertToCategory d \<and> flag_defaults d c"
    using convertToCategory_flags categories_next_fault
    by (auto simp: query_userCategories_def)
next
  fix c assume "c \<in> set (subscribeToUserCategories u s)"
  then show "\<exists>d \<in> set (categories s). c = convertToCategory d \<and> flag_defaults d c"
    using convertToCategory_flags
    by (auto simp: subscribeToUserCategories_def query_userCategories_def)
qed

theorem category_reads_flag_defaults_witness:
  "fst (getCategory 7 (empty_db\<lparr>categories :=
          [\<lparr>cd_id = 7, cd_userId = ''u1'', cd_name = ''Pets'', cd_color = None, cd_icon = None,
            cd_createdAt = ''t0'', cd_isDefault = None, cd_isActive = None,
            cd_expenseCount = None\<rparr>]\<rparr>))
     = Inr (Some \<lparr>c_id = 7, c_userId = ''u1'', c_name = ''Pets'', c_color = None, c_icon = None,
                  c_createdAt = ''t0'', c_isDefault = False, c_isActive = True,
                  c_expenseCount = 0\<rparr>)
   \<and> fst (getUserCategories ''u1'' True (empty_db\<lparr>categories :=
          [\<lparr>cd_id = 7, cd_userId = ''u1'', cd_name = ''Pets'', cd_color = None, cd_icon = None,
            cd_createdAt = ''t0'', cd_isDefault = None, cd_isActive = None,
            cd_expenseCount = None\<rparr>]\<rparr>))
     = Inr [\<lparr>c_id = 7, c_userId = ''u1'', c_name = ''Pets'', c_color = None, c_icon = None,
             c_createdAt = ''t0'', c_isDefault = False, c_isActive = True,
             c_expenseCount = 0\<rparr>]
   \<and> flag_defaults
        \<lparr>cd_id = 7, cd_userId = ''u1'', cd_name = ''Pets'', cd_color = None, cd_icon = None,
         cd_createdAt = ''t0'', cd_isDefault = None, cd_isActive = None, cd_expenseCount = None\<rparr>
        \<lparr>c_id = 7, c_userId = ''u1'', c_name = ''Pets'', c_color = None, c_icon = None,
         c_createdAt = ''t0'', c_isDefault = False, c_isActive = True, c_expenseCount = 0\<rparr>"
  using category_reads_flag_defaults [of 7
      "empty_db\<lparr>categories :=
          [\<lparr>cd_id = 7, cd_userId = ''u1'', cd_name = ''Pets'', cd_color = None, cd_icon = None,
            cd_createdAt = ''t0'', cd_isDefault = None, cd_isActive = None,
            cd_expenseCount = None\<rparr>]\<rparr>" "''u1''" True]
  by (simp add: getCategory_def getUserCategories_def query_userCategories_def next_fault_def
      empty_db_def convertToCategory_def)

section \<open>Properties of the expense store adapter and the aggregation\<close>

text \<open>
  Claim C9.  For a user whose expense list is empty (the read succeeds and returns no
  expense), the statistics are all zero: the average is the number 0, not the result of
  a division by the zero count, and the total and both counts are 0.
\<close>

theorem getExpenseStats_empty:
  "fst (getUserExpenses u s) = Inr [] \<Longrightarrow>
   fst (getExpenseStats u s) =
     Inr \<lparr>totalExpenses = 0, totalAmount = 0, averageAmount = Some 0, expenseCount = 0\<rparr>"
  by (auto simp: getExpenseStats_def split: prod.splits sum.splits)

theorem getExpenseStats_empty_witness:
  "fst (getUserExpenses ''u1'' empty_db) = Inr []
   \<and> fst (getExpenseStats ''u1'' empty_db) =
     Inr \<lparr>totalExpenses = 0, totalAmount = 0, averageAmount = Some 0, expenseCount = 0\<rparr>"
proof -
  have h: "fst (getUserExpenses ''u1'' empty_db) = Inr []"
    by (simp add: getUserExpenses_def next_fault_def empty_db_def query_userExpenses_def)
  show ?thesis using h getExpenseStats_empty [OF h] by simp
qed

text \<open>The guard works for every list: the average is always a number.\<close>

lemma getExpenseStats_average_defined:
  "fst (getExpenseStats u s) = Inr st \<Longrightarrow> \<exists>a. averageAmount st = Some a"
  by (auto simp: getExpenseStats_def divide_number_def Let_def
      split: prod.splits sum.splits if_splits)




text \<open>The example of the specification: two expenses in two categories.\<close>

lemma category_totals_example:
  "getCategoryTotals
     [\<lparr>e_id = 1, e_amount = 45.5, e_description = ''Grocery shopping'', e_category = ''Food'',
       e_date = ''2025-01-15'', e_createdAt = ''2025-01-15T10:30:00Z''\<rparr>,
      \<lparr>e_id = 2, e_amount = 120, e_description = ''Gas station'', e_category = ''Transport'',
       e_date = ''2025-01-14'', e_createdAt = ''2025-01-14T15:45:00Z''\<rparr>]
   = [(''Food'', 45.5), (''Transport'', 120)]"
  by (simp add: getCategoryTotals_def get_or_zero_def)

section \<open>Properties of the default seeding\<close>

lemma addDoc_category_ok:
  "faults s = [] \<Longrightarrow>
   addDoc_category d s =
     (Inr (next_id s),
      s\<lparr>categories := categories s @ [d\<lparr>cd_id := next_id s\<rparr>], next_id := Suc (next_id s)\<rparr>)"
  by (simp add: addDoc_category_def next_fault_nil)

lemma upt_shift: "[n ..< n + Suc k] = n # [Suc n ..< Suc n + k]"
  using upt_conv_Cons [of n "n + Suc k"] by simp

text \<open>Without store failure the loop stores one document per entry, under consecutive ids.\<close>

lemma createDefaults_loop_ok:
  "faults s = [] \<Longrightarrow>
   createDefaults_loop u ts defs cats s =
     (Inr (cats @ map2 (default_cat u ts) [next_id s ..< next_id s + length defs] defs),
      s\<lparr>categories := categories s
            @ map2 (default_doc u ts) [next_id s ..< next_id s + length defs] defs,
        next_id := next_id s + length defs\<rparr>)"
proof (induction defs arbitrary: cats s)
  case Nil
  then show ?case by simp
next
  case (Cons dc rest)
  obtain nm col ic where dc: "dc = (nm, col, ic)" by (cases dc) auto
  let ?s' = "s\<lparr>categories := categories s @ [default_doc u ts (next_id s) dc],
               next_id := Suc (next_id s)\<rparr>"
  have f: "faults ?s' = []" using Cons.prems by simp
  have step: "addDoc_category (default_doc u ts 0 dc) s = (Inr (next_id s), ?s')"
    using Cons.prems by (simp add: addDoc_category_ok default_doc_def dc)
  have len: "length (dc # rest) = Suc (length rest)" by simp
  show ?case
    unfolding len upt_shift
    using Cons.IH [OF f, of "cats @ [default_cat u ts (next_id s) dc]"] step
    by (simp add: dc default_doc_def default_cat_def)
qed

lemma length_defaults: "length defaultCategories = 8"
  by (simp add: defaultCategories_def)

lemma createDefaultCategories_ok:
  assumes "faults s = []"
  shows "createDefaultCategories u ts s =
     (Inr (map2 (default_cat u ts) [next_id s ..< next_id s + 8] defaultCategories),
      s\<lparr>categories := categories s
            @ map2 (default_doc u ts) [next_id s ..< next_id s + 8] defaultCategories,
        next_id := next_id s + 8\<rparr>)"
  using assms length_defaults
  by (simp add: createDefaultCategories_def createDefaults_loop_ok)

lemma getUserCategories_ok:
  "faults s = [] \<Longrightarrow>
   getUserCategories u inc s = (Inr (map convertToCategory (query_userCategories u inc s)), s)"
  by (simp add: getUserCategories_def next_fault_nil)

lemma query_none:
  "user_category_docs u s = [] \<Longrightarrow> query_userCategories u inc s = []"
  by (auto simp: user_category_docs_def query_userCategories_def filter_empty_conv)

lemma ensure_ok:
  assumes "faults s = []" and "user_category_docs u s = []"
  shows "ensureUserHasCategories u ts s =
     (Inr (map2 (default_cat u ts) [next_id s ..< next_id s + 8] defaultCategories),
      s\<lparr>categories := categories s
            @ map2 (default_doc u ts) [next_id s ..< next_id s + 8] defaultCategories,
        next_id := next_id s + 8\<rparr>)"
  using assms
  by (simp add: ensureUserHasCategories_def getUserCategories_ok query_none
      ensure_after_read_def createDefaultCategories_ok)

lemma default_doc_fields:
  "cd_userId (default_doc u ts i dc) = u" "cd_id (default_doc u ts i dc) = i"
  "cd_isDefault (default_doc u ts i dc) = Some True"
  "cd_isActive (default_doc u ts i dc) = Some True"
  "cd_expenseCount (default_doc u ts i dc) = Some 0"
  "cd_name (default_doc u ts i dc) = fst dc"
  by (simp_all add: default_doc_def split: prod.splits)

lemma default_cat_fields:
  "c_userId (default_cat u ts i dc) = u" "c_id (default_cat u ts i dc) = i"
  "c_isDefault (default_cat u ts i dc)"
  "c_isActive (default_cat u ts i dc)"
  "c_expenseCount (default_cat u ts i dc) = 0"
  "c_name (default_cat u ts i dc) = fst dc"
  by (simp_all add: default_cat_def split: prod.splits)

lemma in_set_map2: "x \<in> set (map2 f xs ys) \<Longrightarrow> \<exists>a b. x = f a b"
  by (auto simp: set_zip)

lemma filter_map2_all: "(\<And>a b. P (f a b)) \<Longrightarrow> filter P (map2 f xs ys) = map2 f xs ys"
  by (auto simp: filter_id_conv dest!: in_set_map2)

lemma map_map2_fst:
  "length xs = length ys \<Longrightarrow> (\<And>a b. g (f a b) = a) \<Longrightarrow> map g (map2 f xs ys) = xs"
  by (induction xs ys rule: list_induct2) auto

lemma map_map2_snd:
  "length xs = length ys \<Longrightarrow> (\<And>a b. g (f a b) = h b) \<Longrightarrow> map g (map2 f xs ys) = map h ys"
  by (induction xs ys rule: list_induct2) auto

text \<open>
  Claim C6.  For a user with no category, one call of \<open>ensureUserHasCategories\<close> (no
  store call failing) returns and stores exactly the eight hardcoded defaults, in the
  order of the list, as eight different records of that user, each marked default and
  active with expense count 0.
\<close>

theorem ensure_defaults_once:
  assumes "faults s = []" and "user_category_docs u s = []"
  shows "\<exists>cats s'. ensureUserHasCategories u ts s = (Inr cats, s')
      \<and> length cats = 8
      \<and> map c_name cats = map fst defaultCategories
      \<and> (\<forall>c \<in> set cats. c_userId c = u \<and> c_isDefault c \<and> c_isActive c \<and> c_expenseCount c = 0)
      \<and> categories s' = categories s @ user_category_docs u s'
      \<and> length (user_category_docs u s') = 8
      \<and> map cd_name (user_category_docs u s') = map fst defaultCategories
      \<and> map cd_id (user_category_docs u s') = map c_id cats
      \<and> distinct (map c_id cats)
      \<and> (\<forall>d \<in> set (user_category_docs u s').
            cd_isDefault d = Some True \<and> cd_isActive d = Some True \<and> cd_expenseCount d = Some 0)"
proof -
  let ?ids = "[next_id s ..< next_id s + 8]"
  let ?cats = "map2 (default_cat u ts) ?ids defaultCategories"
  let ?docs = "map2 (default_doc u ts) ?ids defaultCategories"
  let ?s' = "s\<lparr>categories := categories s @ ?docs, next_id := next_id s + 8\<rparr>"
  have len: "length ?ids = length defaultCategories" by (simp add: length_defaults)
  have run: "ensureUserHasCategories u ts s = (Inr ?cats, ?s')"
    using assms by (rule ensure_ok)
  have docs: "user_category_docs u ?s' = ?docs"
    using assms(2) by (simp add: user_category_docs_def filter_map2_all default_doc_fields)
  have "length ?cats = 8" by (simp add: length_defaults)
  moreover have "map c_name ?cats = map fst defaultCategories"
    using len by (rule map_map2_snd) (simp add: default_cat_fields)
  moreover have "\<forall>c \<in> set ?cats. c_userId c = u \<and> c_isDefault c \<and> c_isActive c \<and> c_expenseCount c = 0"
    by (auto dest!: in_set_map2 simp: default_cat_fields)
  moreover have "length ?docs = 8" by (simp add: length_defaults)
  moreover have "map cd_name ?docs = map fst defaultCategories"
    using len by (rule map_map2_snd) (simp add: default_doc_fields)
  moreover have ids: "map c_id ?cats = ?ids"
    using len by (rule map_map2_fst) (simp add: default_cat_fields)
  moreover have "map cd_id ?docs = ?ids"
    using len by (rule map_map2_fst) (simp add: default_doc_fields)
  moreover have "distinct (map c_id ?cats)" unfolding ids by simp
  moreover have "\<forall>d \<in> set ?docs.
      cd_isDefault d = Some True \<and> cd_isActive d = Some True \<and> cd_expenseCount d = Some 0"
    by (auto dest!: in_set_map2 simp: default_doc_fields)
  moreover have "categories ?s' = categories s @ ?docs" by simp
  ultimately show ?thesis
    using run docs by (intro exI [of _ ?cats] exI [of _ ?s']) simp
qed

theorem ensure_defaults_once_witness:
  "faults empty_db = [] \<and> user_category_docs ''u1'' empty_db = []
   \<and> map c_name (projr (fst (ensureUserHasCategories ''u1'' ''t0'' empty_db)))
       = [''Food & Dining'', ''Transportation'', ''Shopping'', ''Entertainment'',
          ''Bills & Utilities'', ''Healthcare'', ''Education'', ''Travel'']
   \<and> length (user_category_docs ''u1'' (snd (ensureUserHasCategories ''u1'' ''t0'' empty_db))) = 8"
proof -
  have h1: "faults empty_db = []" and h2: "user_category_docs ''u1'' empty_db = []"
    by (simp_all add: empty_db_def user_category_docs_def)
  from ensure_defaults_once [OF h1 h2, of "''t0''"]
  obtain cats s' where "ensureUserHasCategories ''u1'' ''t0'' empty_db = (Inr cats, s')"
    and "map c_name cats = map fst defaultCategories"
    and "length (user_category_docs ''u1'' s') = 8"
    by blast
  then show ?thesis using h1 h2 by (simp add: defaultCategories_def)
qed

section \<open>Calling the default seeding twice\<close>







section \<open>Properties of the category reconciliation\<close>

lemma deleteCategory_ok:
  "faults s = [] \<Longrightarrow> i \<in> cd_id ` set (categories s) \<Longrightarrow>
   deleteCategory i s =
     (Inr (), s\<lparr>categories :=
                 map (\<lambda>d. if cd_id d = i then d\<lparr>cd_isActive := Some False\<rparr> else d) (categories s)\<rparr>)"
  by (simp add: deleteCategory_def updateDoc_category_def next_fault_nil)

lemma deleteCategory_expenses: "expenses (snd (deleteCategory i s)) = expenses s"
  by (auto simp: deleteCategory_def updateDoc_category_def next_fault_def
      split: prod.splits sum.splits list.splits bool.splits)

lemma getUserCategories_expenses: "expenses (snd (getUserCategories u inc s)) = expenses s"
  by (auto simp: getUserCategories_def next_fault_def split: list.splits bool.splits)

lemmas demo_defs = demo_user_def demo_db_def demo_ui_def empty_db_def
  subscribeToUserCategories_def query_userCategories_def convertToCategory_def
  subscribeToUserExpenses_def query_userExpenses_def convertToExpense_def
  getCategoryUsageCount_def

lemmas run_defs = confirmDeleteCategory_def handleDeleteCategory_def deleteCategory_def
  updateDoc_category_def getUserCategories_def updateExpense_def next_fault_def
  spread_with_category_def apply_patch_def

text \<open>
  Claim C5.  Deleting a category that no expense of the current list refers to never
  opens the confirmation dialog (the pending confirmation and the chosen replacement stay
  as they are) and leaves every stored expense unchanged, whatever the store calls do.
  For a signed-in user and a listed category whose document is in the store, and no
  store call failing, the deletion sets exactly that category document inactive.
\<close>

theorem handleDeleteCategory_unused:
  assumes "getCategoryUsageCount exps C = 0"
  shows "showDeleteConfirm (fst (handleDeleteCategory cu exps C (ui, s))) = showDeleteConfirm ui
     \<and> replacementCategory (fst (handleDeleteCategory cu exps C (ui, s))) = replacementCategory ui
     \<and> expenses (snd (handleDeleteCategory cu exps C (ui, s))) = expenses s
     \<and> (\<forall>u obj. cu = Some u \<and> find (\<lambda>cat. c_name cat = C) (cm_categories ui) = Some obj
            \<and> faults s = [] \<and> c_id obj \<in> cd_id ` set (categories s) \<longrightarrow>
          categories (snd (handleDeleteCategory cu exps C (ui, s)))
            = map (\<lambda>d. if cd_id d = c_id obj then d\<lparr>cd_isActive := Some False\<rparr> else d)
                (categories s))"
proof -
  have a: "showDeleteConfirm (fst (handleDeleteCategory cu exps C (ui, s))) = showDeleteConfirm ui"
    and b: "replacementCategory (fst (handleDeleteCategory cu exps C (ui, s))) = replacementCategory ui"
    using assms
    by (auto simp: handleDeleteCategory_def split: option.splits prod.splits sum.splits)
  have c: "expenses (snd (handleDeleteCategory cu exps C (ui, s))) = expenses s"
    using assms deleteCategory_expenses getUserCategories_expenses
    by (auto simp: handleDeleteCategory_def split: option.splits prod.splits sum.splits)
      (metis snd_conv)+
  have d: "categories (snd (handleDeleteCategory cu exps C (ui, s)))
            = map (\<lambda>d. if cd_id d = c_id obj then d\<lparr>cd_isActive := Some False\<rparr> else d)
                (categories s)"
    if "cu = Some u" "find (\<lambda>cat. c_name cat = C) (cm_categories ui) = Some obj"
      "faults s = []" "c_id obj \<in> cd_id ` set (categories s)" for u obj
    using assms that
    by (simp add: handleDeleteCategory_def deleteCategory_ok getUserCategories_ok)
  show ?thesis using a b c d by blast
qed

theorem handleDeleteCategory_unused_witness:
  "getCategoryUsageCount (subscribeToUserExpenses ''u1'' demo_db) ''Pets'' = 0
   \<and> showDeleteConfirm (fst (handleDeleteCategory (Some demo_user)
        (subscribeToUserExpenses ''u1'' demo_db) ''Pets'' (demo_ui, demo_db))) = None
   \<and> expenses (snd (handleDeleteCategory (Some demo_user)
        (subscribeToUserExpenses ''u1'' demo_db) ''Pets'' (demo_ui, demo_db))) = expenses demo_db
   \<and> map cd_isActive (categories (snd (handleDeleteCategory (Some demo_user)
        (subscribeToUserExpenses ''u1'' demo_db) ''Pets'' (demo_ui, demo_db))))
      = [Some True, Some True, Some False]"
proof -
  have h: "getCategoryUsageCount (subscribeToUserExpenses ''u1'' demo_db) ''Pets'' = 0"
    by (simp add: demo_defs)
  have obj: "find (\<lambda>cat. c_name cat = ''Pets'') (cm_categories demo_ui)
      = Some \<lparr>c_id = 3, c_userId = ''u1'', c_name = ''Pets'', c_color = None, c_icon = None,
        c_createdAt = ''t0'', c_isDefault = False, c_isActive = True, c_expenseCount = 0\<rparr>"
    by (simp add: demo_defs)
  have st: "c_id \<lparr>c_id = 3, c_userId = ''u1'', c_name = ''Pets'', c_color = None, c_icon = None,
        c_createdAt = ''t0'', c_isDefault = False, c_isActive = True, c_expenseCount = 0\<rparr>
      \<in> cd_id ` set (categories demo_db)"
    by (simp add: demo_defs)
  have nf: "faults demo_db = []" by (simp add: demo_defs)
  have ui: "showDeleteConfirm demo_ui = None" by (simp add: demo_ui_def)
  from handleDeleteCategory_unused [OF h, of "Some demo_user" demo_ui demo_db]
  show ?thesis using h obj st nf ui by (simp add: demo_db_def empty_db_def)
qed

text \<open>
  The loop of the confirmed deletion.  For expenses that are the current conversions of
  stored documents, with different ids, and no store call failing, it sets category and
  update time of exactly the documents it walks over.
\<close>

lemma updateExpense_ok:
  "faults s = [] \<Longrightarrow> i \<in> ed_id ` set (expenses s) \<Longrightarrow>
   updateExpense ts i p s =
     (Inr (), s\<lparr>expenses := map (\<lambda>d. if ed_id d = i then apply_patch p ts d else d) (expenses s)\<rparr>)"
  by (simp add: updateExpense_def next_fault_nil)

lemma apply_patch_spread:
  "convertToExpense d = e \<Longrightarrow> apply_patch (spread_with_category e r) ts d = recategorize ts r d"
  by (auto simp: apply_patch_def spread_with_category_def convertToExpense_def recategorize_def)

lemma same_id_same_doc:
  "distinct (map ed_id ds) \<Longrightarrow> d \<in> set ds \<Longrightarrow> d' \<in> set ds \<Longrightarrow> ed_id d = ed_id d' \<Longrightarrow> d = d'"
  by (meson distinct_map inj_onD)

lemma recategorize_fields:
  "ed_id (recategorize ts r d) = ed_id d" "ed_userId (recategorize ts r d) = ed_userId d"
  "ed_category (recategorize ts r d) = r"
  "convertToExpense (recategorize ts r d) = (convertToExpense d)\<lparr>e_category := r\<rparr>"
  "recategorize ts r (recategorize ts r d) = recategorize ts r d"
  by (simp_all add: recategorize_def convertToExpense_def)

lemma replace_loop_ok:
  assumes "faults s = []" and "distinct (map ed_id (expenses s))" and "distinct (map e_id es)"
    and "\<forall>e \<in> set es. \<exists>d \<in> set (expenses s). convertToExpense d = e"
  shows "replace_loop ts r es s =
     (Inr (), s\<lparr>expenses :=
                 map (\<lambda>d. if ed_id d \<in> e_id ` set es then recategorize ts r d else d)
                   (expenses s)\<rparr>)"
  using assms
proof (induction es arbitrary: s)
  case Nil
  then show ?case by simp
next
  case (Cons e es)
  let ?D = "expenses s"
  let ?f = "\<lambda>d. if ed_id d = e_id e then recategorize ts r d else d"
  let ?s1 = "s\<lparr>expenses := map ?f ?D\<rparr>"
  obtain d0 where d0: "d0 \<in> set ?D" "convertToExpense d0 = e"
    using Cons.prems(4) by auto
  have id0: "ed_id d0 = e_id e" using d0(2) by (auto simp: convertToExpense_def)
  have patch: "map (\<lambda>d. if ed_id d = e_id e then apply_patch (spread_with_category e r) ts d else d) ?D
      = map ?f ?D"
  proof (rule map_cong [OF refl])
    fix d assume "d \<in> set ?D"
    show "(if ed_id d = e_id e then apply_patch (spread_with_category e r) ts d else d) = ?f d"
    proof (cases "ed_id d = e_id e")
      case True
      then have "d = d0"
        using same_id_same_doc [OF Cons.prems(2) \<open>d \<in> set ?D\<close> d0(1)] id0 by simp
      then show ?thesis using True d0(2) by (simp add: apply_patch_spread)
    next
      case False
      then show ?thesis by simp
    qed
  qed
  have "e_id e \<in> ed_id ` set ?D" using d0(1) id0 by force
  then have step: "updateExpense ts (e_id e) (spread_with_category e r) s = (Inr (), ?s1)"
    using Cons.prems(1) by (simp add: updateExpense_ok patch)
  have f1: "faults ?s1 = []" using Cons.prems(1) by simp
  have ids: "map ed_id (map ?f ?D) = map ed_id ?D"
    by (induction ?D) (simp_all add: recategorize_fields)
  have d1: "distinct (map ed_id (expenses ?s1))" using Cons.prems(2) ids by (simp del: map_map)
  have d2: "distinct (map e_id es)" using Cons.prems(3) by simp
  have ex: "\<forall>e' \<in> set es. \<exists>d \<in> set (expenses ?s1). convertToExpense d = e'"
  proof
    fix e' assume e': "e' \<in> set es"
    then obtain d where d: "d \<in> set ?D" "convertToExpense d = e'"
      using Cons.prems(4) by auto
    have "e_id e \<notin> set (map e_id es)" using Cons.prems(3) by simp
    moreover have "e_id e' \<in> set (map e_id es)" using e' by simp
    ultimately have "e_id e' \<noteq> e_id e" by auto
    then have "ed_id d \<noteq> e_id e" using d(2) by (auto simp: convertToExpense_def)
    then have fd: "?f d = d" by simp
    have "?f d \<in> ?f ` set ?D" using d(1) by (rule imageI)
    then have "d \<in> ?f ` set ?D" by (simp only: fd)
    then have "d \<in> set (expenses ?s1)" by simp
    then show "\<exists>d \<in> set (expenses ?s1). convertToExpense d = e'" using d(2) by auto
  qed
  have pt: "(if ed_id (?f d) \<in> e_id ` set es then recategorize ts r (?f d) else ?f d)
      = (if ed_id d \<in> e_id ` set (e # es) then recategorize ts r d else d)" for d
    by (simp add: recategorize_fields)
  have comb: "map (\<lambda>d. if ed_id d \<in> e_id ` set es then recategorize ts r d else d) (map ?f ?D)
      = map (\<lambda>d. if ed_id d \<in> e_id ` set (e # es) then recategorize ts r d else d) ?D"
    unfolding map_map comp_def pt ..
  have "replace_loop ts r (e # es) s = replace_loop ts r es ?s1"
    using step by simp
  also have "\<dots> = (Inr (), ?s1\<lparr>expenses :=
        map (\<lambda>d. if ed_id d \<in> e_id ` set es then recategorize ts r d else d) (expenses ?s1)\<rparr>)"
    using f1 d1 d2 ex by (rule Cons.IH)
  also have "?s1\<lparr>expenses :=
        map (\<lambda>d. if ed_id d \<in> e_id ` set es then recategorize ts r d else d) (expenses ?s1)\<rparr>
      = s\<lparr>expenses :=
        map (\<lambda>d. if ed_id d \<in> e_id ` set (e # es) then recategorize ts r d else d) ?D\<rparr>"
    using comb by simp
  finally show ?case .
qed


lemma usage_old_after_reassign:
  "r \<noteq> c \<Longrightarrow> getCategoryUsageCount (map (reassign c r) xs) c = 0"
  by (auto simp: getCategoryUsageCount_def filter_empty_conv reassign_def)

lemma usage_new_after_reassign:
  "r \<noteq> c \<Longrightarrow>
   getCategoryUsageCount (map (reassign c r) xs) r
     = getCategoryUsageCount xs c + getCategoryUsageCount xs r"
  by (induction xs) (simp_all add: getCategoryUsageCount_def reassign_def)

lemma convert_ids: "map e_id (map convertToExpense ds) = map ed_id ds"
  by (induction ds) (simp_all add: convertToExpense_def)

lemma distinct_snapshot:
  assumes "distinct (map ed_id (expenses s))"
  shows "distinct (map e_id (filter Q (subscribeToUserExpenses v s)))"
proof -
  have "distinct (map ed_id (filter (\<lambda>d. ed_userId d = v) (expenses s)))"
    using assms by (rule distinct_map_filter)
  then have "distinct (map ed_id (query_userExpenses v s))"
    by (simp add: query_userExpenses_def rev_map [symmetric])
  then have "distinct (map e_id (subscribeToUserExpenses v s))"
    by (simp only: subscribeToUserExpenses_def convert_ids)
  then show ?thesis by (rule distinct_map_filter)
qed

text \<open>
  Claim C1, as stated, does not hold: with one expense under Food and one under Fun,
  deleting Food with the replacement Fun completes, and then two expenses have the
  category Fun although only N = 1 expense referred to Food.
\<close>

theorem confirmDeleteCategory_count_counterexample:
  "getCategoryUsageCount (subscribeToUserExpenses ''u1'' demo_db) ''Food'' = 1
   \<and> showDeleteConfirm (fst (confirmDeleteCategory ''t1'' (Some demo_user)
          (subscribeToUserExpenses ''u1'' demo_db)
          (demo_ui\<lparr>showDeleteConfirm := Some ''Food'', replacementCategory := ''Fun''\<rparr>, demo_db)))
       = None
   \<and> getCategoryUsageCount (subscribeToUserExpenses ''u1''
        (snd (confirmDeleteCategory ''t1'' (Some demo_user)
          (subscribeToUserExpenses ''u1'' demo_db)
          (demo_ui\<lparr>showDeleteConfirm := Some ''Food'', replacementCategory := ''Fun''\<rparr>, demo_db))))
        ''Fun'' = 2
   \<and> getCategoryUsageCount (subscribeToUserExpenses ''u1''
        (snd (confirmDeleteCategory ''t1'' (Some demo_user)
          (subscribeToUserExpenses ''u1'' demo_db)
          (demo_ui\<lparr>showDeleteConfirm := Some ''Food'', replacementCategory := ''Fun''\<rparr>, demo_db))))
        ''Fun''
       \<noteq> getCategoryUsageCount (subscribeToUserExpenses ''u1'' demo_db) ''Food''"
  by (simp add: demo_defs run_defs)

text \<open>
  Claim C1, amended.  Let the component show a pending confirmation for the category
  name \<open>C\<close>, a chosen replacement \<open>R\<close> other than \<open>C\<close>, and the current expenses of the
  signed-in user; let the category be listed and stored, and no store call fail.  Then
  the confirmed deletion rewrites the category of each of the N expenses under \<open>C\<close> to
  \<open>R\<close> and changes nothing else in the user's expenses; afterwards no expense has the
  category \<open>C\<close>, the expenses under \<open>R\<close> are N more than before (exactly N when none had
  \<open>R\<close> before), the category document is inactive and the dialog is closed.
\<close>

theorem confirmDeleteCategory_reassigns:
  assumes user: "cu = Some u"
    and pending: "showDeleteConfirm ui = Some C" "C \<noteq> []"
    and repl: "replacementCategory ui = R" "R \<noteq> []" "R \<noteq> C"
    and listed: "find (\<lambda>cat. c_name cat = C) (cm_categories ui) = Some obj"
    and stored: "c_id obj \<in> cd_id ` set (categories s)"
    and snapshot: "exps = subscribeToUserExpenses (u_id u) s"
    and ids: "distinct (map ed_id (expenses s))"
    and nofail: "faults s = []"
  shows "subscribeToUserExpenses (u_id u) (snd (confirmDeleteCategory ts cu exps (ui, s)))
           = map (reassign C R) exps
     \<and> getCategoryUsageCount
           (subscribeToUserExpenses (u_id u) (snd (confirmDeleteCategory ts cu exps (ui, s)))) C = 0
     \<and> getCategoryUsageCount
           (subscribeToUserExpenses (u_id u) (snd (confirmDeleteCategory ts cu exps (ui, s)))) R
         = getCategoryUsageCount exps C + getCategoryUsageCount exps R
     \<and> filter (\<lambda>d. ed_userId d \<noteq> u_id u) (expenses (snd (confirmDeleteCategory ts cu exps (ui, s))))
         = filter (\<lambda>d. ed_userId d \<noteq> u_id u) (expenses s)
     \<and> categories (snd (confirmDeleteCategory ts cu exps (ui, s)))
         = map (\<lambda>d. if cd_id d = c_id obj then d\<lparr>cd_isActive := Some False\<rparr> else d) (categories s)
     \<and> showDeleteConfirm (fst (confirmDeleteCategory ts cu exps (ui, s))) = None
     \<and> replacementCategory (fst (confirmDeleteCategory ts cu exps (ui, s))) = []"
proof -
  let ?v = "u_id u"
  let ?D = "expenses s"
  let ?es = "filter (\<lambda>e. e_category e = C) exps"
  let ?byid = "\<lambda>d. if ed_id d \<in> e_id ` set ?es then recategorize ts R d else d"
  let ?g = "\<lambda>d. if ed_userId d = ?v \<and> ed_category d = C then recategorize ts R d else d"
  let ?s1 = "s\<lparr>expenses := map ?g ?D\<rparr>"
  let ?off = "\<lambda>d. if cd_id d = c_id obj then d\<lparr>cd_isActive := Some False\<rparr> else d"
  let ?s2 = "?s1\<lparr>categories := map ?off (categories s)\<rparr>"
  have des: "distinct (map e_id ?es)"
    unfolding snapshot using ids by (rule distinct_snapshot)
  have exs: "\<forall>e \<in> set ?es. \<exists>d \<in> set ?D. convertToExpense d = e"
    by (auto simp: snapshot subscribeToUserExpenses_def query_userExpenses_def)
  have member: "ed_id d \<in> e_id ` set ?es \<longleftrightarrow> ed_userId d = ?v \<and> ed_category d = C"
    if "d \<in> set ?D" for d
  proof
    assume "ed_id d \<in> e_id ` set ?es"
    then obtain d' where d': "d' \<in> set ?D" "ed_userId d' = ?v" "ed_category d' = C"
      "ed_id d' = ed_id d"
      by (auto simp: snapshot subscribeToUserExpenses_def query_userExpenses_def
          convertToExpense_def)
    then have "d = d'" using same_id_same_doc [OF ids that d'(1)] by simp
    then show "ed_userId d = ?v \<and> ed_category d = C" using d' by simp
  next
    assume "ed_userId d = ?v \<and> ed_category d = C"
    then have "convertToExpense d \<in> set ?es"
      using that
      by (auto simp: snapshot subscribeToUserExpenses_def query_userExpenses_def
          convertToExpense_def)
    then have "e_id (convertToExpense d) \<in> e_id ` set ?es" by (rule imageI)
    then show "ed_id d \<in> e_id ` set ?es" by (simp add: convertToExpense_def)
  qed
  have eq: "map ?byid ?D = map ?g ?D"
    by (rule map_cong [OF refl]) (simp only: member)
  have "replace_loop ts R ?es s = (Inr (), s\<lparr>expenses := map ?byid ?D\<rparr>)"
    using nofail ids des exs by (rule replace_loop_ok)
  then have loop: "replace_loop ts R ?es s = (Inr (), ?s1)"
    unfolding eq .
  have del: "deleteCategory (c_id obj) ?s1 = (Inr (), ?s2)"
    using nofail stored by (simp add: deleteCategory_ok)
  have reload: "getUserCategories ?v False ?s2
      = (Inr (map convertToCategory (query_userCategories ?v False ?s2)), ?s2)"
    using nofail by (simp add: getUserCategories_ok)
  have run: "confirmDeleteCategory ts cu exps (ui, s)
      = (ui\<lparr>cm_categories := map convertToCategory (query_userCategories ?v False ?s2),
             showDeleteConfirm := None, replacementCategory := []\<rparr>, ?s2)"
    using user pending repl(1,2) listed
    by (simp add: confirmDeleteCategory_def loop del reload)
  have keep: "ed_userId (?g d) = ed_userId d" for d
    by (simp add: recategorize_fields)
  have conv: "convertToExpense (?g d) = reassign C R (convertToExpense d)"
    if "ed_userId d = ?v" for d
    using that by (simp add: recategorize_def reassign_def convertToExpense_def)
  have "filter (\<lambda>d. ed_userId d = ?v) (map ?g ?D) = map ?g (filter (\<lambda>d. ed_userId d = ?v) ?D)"
    unfolding filter_map comp_def keep ..
  then have "subscribeToUserExpenses ?v ?s2
      = map convertToExpense (map ?g (query_userExpenses ?v s))"
    by (simp add: subscribeToUserExpenses_def query_userExpenses_def rev_map)
  also have "\<dots> = map (reassign C R) (map convertToExpense (query_userExpenses ?v s))"
    unfolding map_map comp_def
    by (rule map_cong [OF refl], rule conv) (simp add: query_userExpenses_def)
  finally have after: "subscribeToUserExpenses ?v ?s2 = map (reassign C R) exps"
    by (simp add: snapshot subscribeToUserExpenses_def)
  have others: "filter (\<lambda>d. ed_userId d \<noteq> ?v) (expenses ?s2) = filter (\<lambda>d. ed_userId d \<noteq> ?v) ?D"
  proof -
    have "filter (\<lambda>d. ed_userId d \<noteq> ?v) (map ?g ?D)
        = map ?g (filter (\<lambda>d. ed_userId d \<noteq> ?v) ?D)"
      unfolding filter_map comp_def keep ..
    also have "\<dots> = map (\<lambda>d. d) (filter (\<lambda>d. ed_userId d \<noteq> ?v) ?D)"
      by (rule map_cong [OF refl]) simp
    finally show ?thesis by simp
  qed
  show ?thesis
    unfolding run fst_conv snd_conv after others
    using usage_old_after_reassign [OF repl(3), of exps]
      usage_new_after_reassign [OF repl(3), of exps] by simp
qed


theorem confirmDeleteCategory_reassigns_witness:
  "subscribeToUserExpenses ''u1''
        (snd (confirmDeleteCategory ''t1'' (Some demo_user)
          (subscribeToUserExpenses ''u1'' demo_db)
          (demo_ui\<lparr>showDeleteConfirm := Some ''Food'', replacementCategory := ''Fun''\<rparr>, demo_db)))
     = [\<lparr>e_id = 11, e_amount = 20, e_description = ''Cinema'', e_category = ''Fun'',
         e_date = ''2025-01-16'', e_createdAt = ''t0''\<rparr>,
        \<lparr>e_id = 10, e_amount = 45.5, e_description = ''Groceries'', e_category = ''Fun'',
         e_date = ''2025-01-15'', e_createdAt = ''t0''\<rparr>]
   \<and> map cd_isActive (categories
        (snd (confirmDeleteCategory ''t1'' (Some demo_user)
          (subscribeToUserExpenses ''u1'' demo_db)
          (demo_ui\<lparr>showDeleteConfirm := Some ''Food'', replacementCategory := ''Fun''\<rparr>, demo_db))))
     = [Some False, Some True, Some True]"
  using confirmDeleteCategory_reassigns [of "Some demo_user" demo_user
      "demo_ui\<lparr>showDeleteConfirm := Some ''Food'', replacementCategory := ''Fun''\<rparr>"
      "''Food''" "''Fun''"
      "\<lparr>c_id = 1, c_userId = ''u1'', c_name = ''Food'', c_color = None, c_icon = None,
        c_createdAt = ''t0'', c_isDefault = False, c_isActive = True, c_expenseCount = 0\<rparr>"
      demo_db "subscribeToUserExpenses ''u1'' demo_db" "''t1''"]
  by (simp add: demo_defs reassign_def)


section \<open>Properties of the CSV export\<close>

lemma csv_collision: "exportToCSV numToString [csv_a] = exportToCSV numToString [csv_b]"
  by (simp add: exportToCSV_def csvRow_def csv_a_def csv_b_def)

lemma csv_tuples_differ: "csvTuple csv_a \<noteq> csvTuple csv_b"
  by (simp add: csvTuple_def csv_a_def csv_b_def)

text \<open>
  Claim C4, as stated, does not hold.  The two expenses \<open>csv_a\<close> and \<open>csv_b\<close> have
  different descriptions and categories and yet the same export text, however the amount
  is printed: the description is written between double quotes but a double quote inside
  it is not escaped, and the category is not quoted at all.  Hence no way of printing
  amounts and no parser give back the (date, description, category, amount) tuples of
  every collection.
\<close>

theorem exportToCSV_no_round_trip:
  "\<not> (\<exists>numToString parse. \<forall>exps. parse (exportToCSV numToString exps) = map csvTuple exps)"
proof
  assume "\<exists>numToString parse. \<forall>exps. parse (exportToCSV numToString exps) = map csvTuple exps"
  then obtain numToString parse
    where p: "\<And>exps. parse (exportToCSV numToString exps) = map csvTuple exps"
    by blast
  have "map csvTuple [csv_a] = parse (exportToCSV numToString [csv_a])" by (simp only: p)
  also have "\<dots> = parse (exportToCSV numToString [csv_b])" by (simp only: csv_collision)
  also have "\<dots> = map csvTuple [csv_b]" by (simp only: p)
  finally show False using csv_tuples_differ by simp
qed

text \<open>The exported text of \<open>csv_a\<close>, the amount printed as \<open>3\<close>.\<close>

lemma csv_row_text:
  "exportToCSV (\<lambda>x. ''3'') [csv_a]
   = ''Date,Description,Category,Amount,Created At'' @ [newline]
     @ ''2025-01-15,'' @ [dquote] @ ''Coffee'' @ [dquote] @ '',Cafe'' @ [dquote]
     @ '',Food,3,2025-01-15T10:30:00Z''"
  by (simp add: exportToCSV_def csvRow_def csv_a_def headers_def)

text \<open>The reader on text written by the exporter.\<close>

lemma split_on_plain: "c \<notin> set p \<Longrightarrow> split_on c p = [p]"
  by (induction p) auto

lemma split_on_append: "c \<notin> set p \<Longrightarrow> split_on c (p @ c # rest) = p # split_on c rest"
  by (induction p) auto

lemma split_on_join:
  "\<forall>l \<in> set (l0 # ls). c \<notin> set l \<Longrightarrow> split_on c (join [c] (l0 # ls)) = l0 # ls"
proof (induction ls arbitrary: l0)
  case Nil
  then show ?case by (simp add: split_on_plain)
next
  case (Cons l ls)
  then show ?case by (simp add: split_on_append)
qed

lemma fields_unquoted:
  "dquote \<notin> set p \<Longrightarrow> CHR '','' \<notin> set p \<Longrightarrow>
   csv_fields False cur (p @ rest) = csv_fields False (cur @ p) rest"
  by (induction p arbitrary: cur) auto

lemma fields_quoted:
  "dquote \<notin> set p \<Longrightarrow> csv_fields True cur (p @ rest) = csv_fields True (cur @ p) rest"
  by (induction p arbitrary: cur) auto

lemma fields_row:
  assumes "csv_safe numToString e"
  shows "csv_fields False [] (csvRow numToString e)
     = [e_date e, e_description e, e_category e, numToString (e_amount e), e_createdAt e]"
proof -
  let ?d = "e_date e" and ?s = "e_description e" and ?c = "e_category e"
  let ?a = "numToString (e_amount e)" and ?t = "e_createdAt e"
  have row: "csvRow numToString e
      = ?d @ CHR '','' # dquote # ?s @ dquote # CHR '','' # ?c @ CHR '','' # ?a @ CHR '','' # ?t"
    by (simp add: csvRow_def)
  have p: "dquote \<notin> set ?d" "CHR '','' \<notin> set ?d" "dquote \<notin> set ?s"
    "dquote \<notin> set ?c" "CHR '','' \<notin> set ?c" "dquote \<notin> set ?a" "CHR '','' \<notin> set ?a"
    "dquote \<notin> set ?t" "CHR '','' \<notin> set ?t"
    using assms by (simp_all add: csv_safe_def plain_def)
  have ne: "CHR '','' \<noteq> dquote" by (simp add: dquote_def)
  have f5: "csv_fields False [] ?t = [?t]"
    using fields_unquoted [OF p(8) p(9), of "[]" "[]"] by simp
  have f4: "csv_fields False [] (?a @ CHR '','' # ?t) = [?a, ?t]"
    using fields_unquoted [OF p(6) p(7), of "[]" "CHR '','' # ?t"] f5 ne by simp
  have f3: "csv_fields False [] (?c @ CHR '','' # ?a @ CHR '','' # ?t) = [?c, ?a, ?t]"
    using fields_unquoted [OF p(4) p(5), of "[]" "CHR '','' # ?a @ CHR '','' # ?t"] f4 ne by simp
  have f2: "csv_fields True [] (?s @ dquote # CHR '','' # ?c @ CHR '','' # ?a @ CHR '','' # ?t)
      = [?s, ?c, ?a, ?t]"
    using fields_quoted [OF p(3), of "[]" "dquote # CHR '','' # ?c @ CHR '','' # ?a @ CHR '','' # ?t"]
      f3 ne by simp
  have f1: "csv_fields False []
        (?d @ CHR '','' # dquote # ?s @ dquote # CHR '','' # ?c @ CHR '','' # ?a @ CHR '','' # ?t)
      = [?d, ?s, ?c, ?a, ?t]"
    using fields_unquoted [OF p(1) p(2), of "[]"
        "CHR '','' # dquote # ?s @ dquote # CHR '','' # ?c @ CHR '','' # ?a @ CHR '','' # ?t"]
      f2 ne by simp
  show ?thesis unfolding row by (rule f1)
qed

lemma row_no_newline:
  assumes "csv_safe numToString e"
  shows "newline \<notin> set (csvRow numToString e)"
proof -
  have "newline \<noteq> dquote" "newline \<noteq> CHR '',''" by (simp_all add: dquote_def newline_def)
  then show ?thesis
    using assms by (simp add: csvRow_def csv_safe_def plain_def)
qed

lemma header_no_newline: "newline \<notin> set (join '','' headers)"
  by (simp add: headers_def newline_def)

text \<open>
  Claim C4, amended.  For every expense collection whose dates, categories, printed
  amounts and creation times contain no double quote, comma or newline, and whose
  descriptions contain no double quote or newline, reading the exported text back
  (header dropped, lines split at newlines, fields split at commas outside double
  quotes, amounts read back by the inverse of their printing) yields the (date,
  description, category, amount) tuples of the collection, in the same order.
\<close>

theorem exportToCSV_round_trip_plain:
  assumes "\<forall>e \<in> set exps. csv_safe numToString e"
    and "\<forall>e \<in> set exps. numOfString (numToString (e_amount e)) = e_amount e"
  shows "parseCSV numOfString (exportToCSV numToString exps) = map (\<lambda>e. Some (csvTuple e)) exps"
proof -
  have "\<forall>l \<in> set (join '','' headers # map (csvRow numToString) exps). newline \<notin> set l"
    using assms(1) header_no_newline row_no_newline by auto
  then have "split_on newline (exportToCSV numToString exps)
      = join '','' headers # map (csvRow numToString) exps"
    unfolding exportToCSV_def by (rule split_on_join)
  then have "parseCSV numOfString (exportToCSV numToString exps)
      = map (parse_row numOfString) (map (csvRow numToString) exps)"
    by (simp add: parseCSV_def)
  also have "\<dots> = map (\<lambda>e. Some (csvTuple e)) exps"
    unfolding map_map comp_def
  proof (rule map_cong [OF refl])
    fix e assume "e \<in> set exps"
    then have "csv_safe numToString e" "numOfString (numToString (e_amount e)) = e_amount e"
      using assms by auto
    then show "parse_row numOfString (csvRow numToString e) = Some (csvTuple e)"
      by (simp add: parse_row_def fields_row csvTuple_def)
  qed
  finally show ?thesis .
qed

theorem exportToCSV_round_trip_plain_witness:
  "list_all (csv_safe demo_numToString) demo_expenses
   \<and> parseCSV demo_numOfString (exportToCSV demo_numToString demo_expenses)
     = [Some (''2025-01-15'', ''Milk, eggs'', ''Food & Dining'', 45.5),
        Some (''2025-01-14'', ''Gas station'', ''Transportation'', 120)]"
proof -
  have safe: "\<forall>e \<in> set demo_expenses. csv_safe demo_numToString e"
    by (simp add: demo_expenses_def csv_safe_def plain_def demo_numToString_def
        dquote_def newline_def)
  have inv: "\<forall>e \<in> set demo_expenses.
      demo_numOfString (demo_numToString (e_amount e)) = e_amount e"
    by (simp add: demo_expenses_def demo_numToString_def demo_numOfString_def)
  show ?thesis
    using exportToCSV_round_trip_plain [OF safe inv] safe
    by (simp add: demo_expenses_def csvTuple_def list_all_iff)
qed

end
